theory Spec2Isabelle
  imports Main "HOL-Library.Sublist" "HOL-Library.AList"
begin

section \<open>Python values used by the engine\<close>

text \<open>
  A ViewKey is a Python tuple of strings: the schema first, then the path of the name.
  Exceptions are values; a function that can raise returns \<open>exn + 'a\<close>, with \<open>Inl\<close>
  the exception raised.
\<close>

type_synonym view_key = "string list"

datatype exn =
    ValueError
  | NameError string
  | KeyError
  | IndexError
  | AttributeError
  | NotImplementedError
  | JobError string
  | AggregateFailure

subsection \<open>\<open>str.split\<close> and \<open>str.join\<close>\<close>

text \<open>
  \<open>find_sep sep s\<close> is the leftmost occurrence of \<open>sep\<close> in \<open>s\<close>: the text before it and
  the text after it. Python's \<open>s.split(sep, 1)\<close> cuts there once, \<open>s.split(sep)\<close> cuts at
  every occurrence, scanning from the left, occurrences not overlapping.
\<close>

fun find_sep :: "string \<Rightarrow> string \<Rightarrow> (string \<times> string) option" where
  "find_sep sep [] = (if sep = [] then Some ([], []) else None)"
| "find_sep sep (x # xs) =
     (if prefix sep (x # xs) then Some ([], drop (length sep) (x # xs))
      else map_option (\<lambda>(a, b). (x # a, b)) (find_sep sep xs))"

definition split_maxsplit1 :: "string \<Rightarrow> string \<Rightarrow> string list" where
  \<comment> \<open>\<open>s.split(sep, 1)\<close>\<close>
  "split_maxsplit1 sep s = (case find_sep sep s of None \<Rightarrow> [s] | Some (a, b) \<Rightarrow> [a, b])"

lemma find_sep_shorter:
  "find_sep sep s = Some (a, b) \<Longrightarrow> sep \<noteq> [] \<Longrightarrow> length b < length s"
proof (induction s arbitrary: a)
  case Nil
  then show ?case by simp
next
  case (Cons x xs)
  show ?case
  proof (cases "prefix sep (x # xs)")
    case True
    with Cons.prems show ?thesis by auto
  next
    case False
    with Cons.prems obtain a' where "find_sep sep xs = Some (a', b)"
      by (auto split: prod.splits)
    with Cons.IH Cons.prems(2) show ?thesis by fastforce
  qed
qed

function split_str :: "string \<Rightarrow> string \<Rightarrow> string list" where
  \<comment> \<open>\<open>s.split(sep)\<close> for a non-empty separator (the only ones the client uses)\<close>
  "split_str sep s =
     (case find_sep sep s of
        None \<Rightarrow> [s]
      | Some (a, b) \<Rightarrow> if sep = [] then [s] else a # split_str sep b)"
  by pat_completeness auto
termination
  by (relation "measure (\<lambda>(sep, s). length s)") (auto dest: find_sep_shorter)

declare split_str.simps [simp del]

fun join_str :: "string \<Rightarrow> string list \<Rightarrow> string" where
  \<comment> \<open>\<open>sep.join(xs)\<close>\<close>
  "join_str sep [] = []"
| "join_str sep [x] = x"
| "join_str sep (x # y # ys) = x @ sep @ join_str sep (y # ys)"

fun contains_str :: "string \<Rightarrow> string \<Rightarrow> bool" where
  \<comment> \<open>\<open>sep in s\<close>\<close>
  "contains_str sep [] = (sep = [])"
| "contains_str sep (x # xs) = (prefix sep (x # xs) \<or> contains_str sep xs)"

section \<open>The DuckDB client: ViewKey and table reference\<close>

text \<open>
  Of the client, the translation between keys and references reads two attributes:
  \<open>self.path\<close> and \<open>self.username\<close>. The constructor keeps in \<open>self.path\<close> a \<open>pathlib.Path\<close>
  when the database is a file, and the \<open>str\<close> it was given when the path starts with \<open>md:\<close>
  (a MotherDuck database). Of a \<open>pathlib.Path\<close> the client reads the attribute \<open>stem\<close> only,
  so that the path of a file is given by its stem; a \<open>str\<close> has no attribute \<open>stem\<close>.
\<close>

datatype db_path = PosixPath string | MotherDuck string

record client =
  path :: db_path
  username :: "string option"

definition path_stem :: "client \<Rightarrow> exn + string" where
  \<comment> \<open>\<open>self.path.stem\<close>\<close>
  "path_stem c =
     (case path c of PosixPath stem \<Rightarrow> Inr stem | MotherDuck s \<Rightarrow> Inl AttributeError)"

text \<open>
  Modelled from the spec: the constant \<open>lea._SEP\<close> is not among the sources. The spec calls
  it the fixed separator that flattens the hierarchical name, and the doctests of the client
  (\<open>("schema", "subschema", "table")\<close> becomes \<open>'schema.subschema__table'\<close>) show its value.
\<close>

definition SEP :: string where
  "SEP = ''__''"

definition username_truthy :: "client \<Rightarrow> bool" where
  \<comment> \<open>the truth value of \<open>self.username\<close>: neither \<open>None\<close> nor the empty string\<close>
  "username_truthy c = (case username c of None \<Rightarrow> False | Some u \<Rightarrow> u \<noteq> [])"

definition view_key_to_table_reference :: "client \<Rightarrow> view_key \<Rightarrow> bool \<Rightarrow> exn + string" where
  \<comment> \<open>\<open>DuckDB._view_key_to_table_reference(view_key, with_username)\<close>;
      unpacking \<open>schema, *leftover = view_key\<close> raises ValueError on the empty tuple\<close>
  "view_key_to_table_reference c view_key with_username =
     (case view_key of
        [] \<Rightarrow> Inl ValueError
      | schema # leftover \<Rightarrow>
          let table_reference = schema @ ''.'' @ join_str SEP leftover
          in if with_username \<and> username_truthy c
             then (case path_stem c of
                     Inl e \<Rightarrow> Inl e
                   | Inr stem \<Rightarrow> Inr (stem @ ''.'' @ table_reference))
             else Inr table_reference)"

definition table_reference_to_view_key :: "client \<Rightarrow> string \<Rightarrow> exn + view_key" where
  \<comment> \<open>\<open>DuckDB._table_reference_to_view_key(table_reference)\<close>; each unpacking of a
      \<open>split(".", 1)\<close> into two names raises ValueError when there is no dot; the comparison
      \<open>database == self.path.stem\<close> comes after the first unpacking\<close>
  "table_reference_to_view_key c table_reference =
     (case split_maxsplit1 ''.'' table_reference of
        [database, leftover] \<Rightarrow>
          (case path_stem c of
             Inl e \<Rightarrow> Inl e
           | Inr stem \<Rightarrow>
               if database = stem
               then (case split_maxsplit1 ''.'' leftover of
                       [schema, leftover'] \<Rightarrow> Inr (schema # split_str SEP leftover')
                     | _ \<Rightarrow> Inl ValueError)
               else Inr (database # split_str SEP leftover))
      | _ \<Rightarrow> Inl ValueError)"

definition roundtrip :: "client \<Rightarrow> view_key \<Rightarrow> bool \<Rightarrow> exn + view_key" where
  \<comment> \<open>\<open>_table_reference_to_view_key(_view_key_to_table_reference(k, with_username))\<close>\<close>
  "roundtrip c k with_username =
     (case view_key_to_table_reference c k with_username of
        Inl e \<Rightarrow> Inl e
      | Inr r \<Rightarrow> table_reference_to_view_key c r)"

section \<open>Views\<close>

text \<open>
  The engine reads four things of a view: its key, its schema, its dependencies (table
  references, as the \<open>dependencies\<close> property yields them) and what kind of view it is.
\<close>

datatype view_kind = SQLView | PythonView | OtherView

record view =
  key :: view_key
  schema :: string
  kind :: view_kind
  source_code :: string
  dependencies :: "string list"

type_synonym table_reference_mapping = "string \<rightharpoonup> string"

definition PythonView_rename_table_references :: "view \<Rightarrow> 'mapping \<Rightarrow> view" where
  \<comment> \<open>\<open>PythonView.rename_table_references(self, table_reference_mapping)\<close>: \<open>return self\<close>\<close>
  "PythonView_rename_table_references self mapping = self"

section \<open>The table reference mapping\<close>

fun build_mapping ::
  "client \<Rightarrow> view_key list \<Rightarrow> table_reference_mapping \<Rightarrow> exn + table_reference_mapping" where
  \<comment> \<open>the dict comprehension \<open>{ref(k): ref(k, with_username=True) for k in keys}\<close>\<close>
  "build_mapping c [] m = Inr m"
| "build_mapping c (view_key # rest) m =
     (case view_key_to_table_reference c view_key False of
        Inl e \<Rightarrow> Inl e
      | Inr logical \<Rightarrow>
          (case view_key_to_table_reference c view_key True of
             Inl e \<Rightarrow> Inl e
           | Inr scoped \<Rightarrow> build_mapping c rest (m(logical \<mapsto> scoped))))"

text \<open>
  The names a body of \<open>run.py\<close> can read: those bound at module level (the imports, the four
  status constants and the four functions) and the function's own parameters and locals.
  \<open>_make_table_reference_mapping\<close> reads the name \<open>select\<close>, which is a parameter of \<open>run\<close>
  only (and no builtin): the lookup fails.
\<close>

definition module_names :: "string list" where
  "module_names =
     [''annotations'', ''concurrent'', ''dt'', ''functools'', ''git'', ''pathlib'', ''pickle'',
      ''re'', ''time'', ''warnings'', ''rich'', ''lea'',
      ''RUNNING'', ''SUCCESS'', ''ERRORED'', ''SKIPPED'',
      ''_do_nothing'', ''pretty_print_view'', ''_make_table_reference_mapping'', ''run'']"

definition mapping_locals :: "string list" where
  "mapping_locals =
     [''dag'', ''client'', ''selected_view_keys'', ''freeze_unselected'',
      ''table_reference_mapping'']"

definition make_table_reference_mapping ::
  "view_key list \<Rightarrow> client \<Rightarrow> view_key list \<Rightarrow> bool \<Rightarrow> exn + table_reference_mapping option" where
  \<comment> \<open>\<open>_make_table_reference_mapping(dag, client, selected_view_keys, freeze_unselected)\<close>,
      the DAG given by its keys in iteration order. The result is \<open>None\<close> where the Python
      function ends without a \<open>return\<close>: the frozen branch binds the dict to a local name
      and falls off the end.\<close>
  "make_table_reference_mapping dag_keys c selected_view_keys freeze_unselected =
     (if \<not> freeze_unselected
      then (case build_mapping c dag_keys Map.empty of
              Inl e \<Rightarrow> Inl e
            | Inr m \<Rightarrow> Inr (Some m))
      else if ''select'' \<notin> set (mapping_locals @ module_names)
      then Inl (NameError ''select'')
      else (case build_mapping c selected_view_keys Map.empty of
              Inl e \<Rightarrow> Inl e
            | Inr m \<Rightarrow> Inr None))"

section \<open>The dependency graph\<close>

text \<open>
  Modelled from the spec: the class \<open>lea.views.DAGOfViews\<close> is not among the sources. The
  spec (4.2) gives its scheduling protocol: \<open>prepare()\<close> resets the ready and done sets;
  \<open>is_active()\<close> is true while a managed ViewKey is not done; \<open>get_ready()\<close> returns the keys
  not yet returned whose dependencies are all done; \<open>done(key)\<close> marks a key complete, which
  may unlock its dependents at the next \<open>get_ready()\<close>. The graph owns the views by key, in
  insertion order, and has an edge from each view to each of its dependencies that the graph
  manages (a dependency the graph does not manage is an external leaf, with no edge).
\<close>

record dag =
  dag_views :: "(view_key \<times> view) list"
  dag_edges :: "(view_key \<times> view_key list) list"
  done_keys :: "view_key set"
  returned_keys :: "view_key set"

definition dag_keys :: "dag \<Rightarrow> view_key list" where
  \<comment> \<open>\<open>dag.keys()\<close>, also the order of \<open>for view_key in dag\<close>\<close>
  "dag_keys d = map fst (dag_views d)"

definition dag_contains :: "dag \<Rightarrow> view_key \<Rightarrow> bool" where
  \<comment> \<open>\<open>view_key in dag\<close>\<close>
  "dag_contains d k = (k \<in> set (dag_keys d))"

definition dag_getitem :: "dag \<Rightarrow> view_key \<Rightarrow> exn + view" where
  \<comment> \<open>\<open>dag[view_key]\<close>\<close>
  "dag_getitem d k = (case map_of (dag_views d) k of None \<Rightarrow> Inl KeyError | Some v \<Rightarrow> Inr v)"

definition dag_dependencies :: "dag \<Rightarrow> view_key \<Rightarrow> view_key list" where
  \<comment> \<open>the edges that leave a key: its dependencies among the managed keys\<close>
  "dag_dependencies d k =
     filter (dag_contains d) (case map_of (dag_edges d) k of None \<Rightarrow> [] | Some ds \<Rightarrow> ds)"

definition dag_prepare :: "dag \<Rightarrow> dag" where
  "dag_prepare d = d\<lparr>done_keys := {}, returned_keys := {}\<rparr>"

definition dag_is_active :: "dag \<Rightarrow> bool" where
  "dag_is_active d = (\<exists>k\<in>set (dag_keys d). k \<notin> done_keys d)"

definition dag_get_ready :: "dag \<Rightarrow> view_key list \<times> dag" where
  "dag_get_ready d =
     (let ready = filter (\<lambda>k. k \<notin> returned_keys d
                       \<and> (\<forall>dep\<in>set (dag_dependencies d k). dep \<in> done_keys d)) (dag_keys d)
      in (ready, d\<lparr>returned_keys := returned_keys d \<union> set ready\<rparr>))"

definition dag_mark_done :: "view_key \<Rightarrow> dag \<Rightarrow> dag" where
  \<comment> \<open>\<open>dag.done(view_key)\<close>\<close>
  "dag_mark_done k d = d\<lparr>done_keys := insert k (done_keys d)\<rparr>"

section \<open>The run: configuration, collaborators, state\<close>

record config =
  select :: "string list"
  freeze_unselected :: bool
  print_views :: bool
  dry :: bool
  silent :: bool
  fresh :: bool
  threads :: nat
  show_rows :: int
  fail_fast :: bool

datatype job = DoNothing | PrettyPrint view | Materialize view

definition RUNNING :: string where "RUNNING = ''[cyan]RUNNING''"
definition SUCCESS :: string where "SUCCESS = ''[green]SUCCESS''"
definition ERRORED :: string where "ERRORED = ''[red]ERRORED''"
definition SKIPPED :: string where "SKIPPED = ''[yellow]SKIPPED''"

text \<open>
  What the control thread does to the outside, in order: a \<open>DROP TABLE IF EXISTS\<close> sent to the
  store, a job handed to the worker pool, a message written to the console. The messages are
  the f-strings of \<open>run\<close>, kept as data: the counts of the first log line, \<open>Removed ...\<close>,
  \<open>... already done\<close>, \<open>Took ...s\<close>, the rows of the summary table, and the detail of one error.
\<close>

datatype message =
    SelectedOutOf nat nat
  | Removed string
  | AlreadyDone nat
  | Took
  | Summary "(string \<times> int) list"
  | ErrorDetail view_key exn

datatype event =
    is_DropTable: DropTable string
  | is_Submit: Submit view_key job
  | is_Console: Console message

text \<open>
  What \<open>run\<close> receives from code outside the sources, and from the world: the views that
  \<open>client.open_views\<close> finds, the graph that \<open>client.make_dag\<close> builds of them (or the error
  it raises), the keys that \<open>dag.select\<close> resolves the patterns to, the rows
  \<open>(schema_name, table_name)\<close> of \<open>duckdb_tables()\<close>, the rewriting of a query-defined view,
  the content of \<open>.cache.pkl\<close> (\<open>None\<close>: no file), and of each job two facts: whether its
  future answers \<open>done()\<close> in a given turn of the poll loop (turns are counted from 0), and
  the exception, if any, that materializing a view raises.
\<close>

record world =
  open_views :: "view list"
  make_dag :: "view list \<Rightarrow> exn + dag"
  dag_select :: "dag \<Rightarrow> string list \<Rightarrow> view_key list"
  duckdb_tables :: "(string \<times> string) list"
  SQLView_rename_table_references :: "view \<Rightarrow> table_reference_mapping option \<Rightarrow> view"
  cache_pkl :: "view_key set option"
  job_done :: "view_key \<Rightarrow> nat \<Rightarrow> bool"
  materialize_view :: "view \<Rightarrow> exn option"

text \<open>The local variables of \<open>run\<close> that the poll loop reads and writes.\<close>

record engine =
  dag_state :: dag
  jobs :: "(view_key \<times> job) list"
  execution_order :: "view_key list"
  jobs_started_at :: "(view_key \<times> nat) list"
  jobs_ended_at :: "(view_key \<times> nat) list"
  exceptions :: "(view_key \<times> exn) list"
  skipped :: "view_key set"
  cache :: "view_key set"
  turn :: nat
  trace :: "event list"

text \<open>What stays fixed during the loop.\<close>

record env =
  the_client :: client
  the_config :: config
  the_world :: world
  selected_view_keys :: "view_key list"
  the_mapping :: "table_reference_mapping option"

definition console_log :: "bool \<Rightarrow> message \<Rightarrow> event list \<Rightarrow> event list" where
  \<comment> \<open>\<open>console_log = _do_nothing if silent else console.log\<close>\<close>
  "console_log is_silent msg tr = (if is_silent then tr else tr @ [Console msg])"

section \<open>Orphan cleanup\<close>

definition list_tables :: "client \<Rightarrow> (string \<times> string) list \<Rightarrow> exn + string list" where
  \<comment> \<open>the column \<open>table_reference\<close> of \<open>DuckDB.list_tables()\<close>:
      \<open>'{self.path.stem}' || '.' || schema_name || '.' || table_name\<close>; the f-string of the
      query reads \<open>self.path.stem\<close> before anything is asked of the store\<close>
  "list_tables c rows =
     (case path_stem c of
        Inl e \<Rightarrow> Inl e
      | Inr stem \<Rightarrow>
          Inr (map (\<lambda>(schema_name, table_name).
                 stem @ ''.'' @ schema_name @ ''.'' @ table_name) rows))"

definition delete_view_key :: "client \<Rightarrow> view_key \<Rightarrow> event list \<Rightarrow> exn + event list" where
  \<comment> \<open>\<open>DuckDB.delete_view_key(view_key)\<close>\<close>
  "delete_view_key c view_key tr =
     (case view_key_to_table_reference c view_key False of
        Inl e \<Rightarrow> Inl e
      | Inr table_reference \<Rightarrow> Inr (tr @ [DropTable table_reference]))"

fun remove_orphans ::
  "client \<Rightarrow> dag \<Rightarrow> bool \<Rightarrow> bool \<Rightarrow> string list \<Rightarrow> event list \<Rightarrow> exn option \<times> event list" where
  \<comment> \<open>lines 110-117 of \<open>run\<close>: the loop over \<open>client.list_tables()["table_reference"]\<close>\<close>
  "remove_orphans c d is_dry is_silent [] tr = (None, tr)"
| "remove_orphans c d is_dry is_silent (table_reference # rest) tr =
     (case table_reference_to_view_key c table_reference of
        Inl e \<Rightarrow> (Some e, tr)
      | Inr view_key \<Rightarrow>
          if dag_contains d view_key then remove_orphans c d is_dry is_silent rest tr
          else (case (if is_dry then Inr tr else delete_view_key c view_key tr) of
                  Inl e \<Rightarrow> (Some e, tr)
                | Inr tr' \<Rightarrow>
                    remove_orphans c d is_dry is_silent rest
                      (console_log is_silent (Removed table_reference) tr')))"

section \<open>The poll loop\<close>

definition rename_table_references :: "world \<Rightarrow> view \<Rightarrow> table_reference_mapping option \<Rightarrow> view" where
  \<comment> \<open>the method call \<open>view.rename_table_references(table_reference_mapping=...)\<close>,
      dispatched on the class of the view\<close>
  "rename_table_references w v m =
     (case kind v of
        PythonView \<Rightarrow> PythonView_rename_table_references v m
      | _ \<Rightarrow> SQLView_rename_table_references w v m)"

definition pretty_print_view :: "view \<Rightarrow> exn option" where
  \<comment> \<open>\<open>pretty_print_view(view, console)\<close>: what it raises\<close>
  "pretty_print_view v =
     (case kind v of SQLView \<Rightarrow> None | PythonView \<Rightarrow> None | OtherView \<Rightarrow> Some NotImplementedError)"

definition job_exception :: "world \<Rightarrow> job \<Rightarrow> exn option" where
  \<comment> \<open>\<open>jobs[view_key].exception()\<close> of a finished job: \<open>_do_nothing\<close> raises nothing\<close>
  "job_exception w j =
     (case j of
        DoNothing \<Rightarrow> None
      | PrettyPrint v \<Rightarrow> pretty_print_view v
      | Materialize v \<Rightarrow> materialize_view w v)"

fun any_dependency_failed ::
  "client \<Rightarrow> view_key set \<Rightarrow> (view_key \<times> exn) list \<Rightarrow> string list \<Rightarrow> exn + bool" where
  \<comment> \<open>line 177: \<open>any(dep_key in skipped or dep_key in exceptions for dep_key in
      map(client._table_reference_to_view_key, dag[view_key].dependencies))\<close>; \<open>any\<close> stops
      at the first true element, and the translation of a reference may raise\<close>
  "any_dependency_failed c skipped_set excs [] = Inr False"
| "any_dependency_failed c skipped_set excs (table_reference # rest) =
     (case table_reference_to_view_key c table_reference of
        Inl e \<Rightarrow> Inl e
      | Inr dep_key \<Rightarrow>
          if dep_key \<in> skipped_set \<or> dep_key \<in> fst ` set excs then Inr True
          else any_dependency_failed c skipped_set excs rest)"

definition choose_job :: "env \<Rightarrow> engine \<Rightarrow> view_key \<Rightarrow> view \<Rightarrow> job" where
  \<comment> \<open>lines 183-195\<close>
  "choose_job e s view_key v =
     (if dry (the_config e) \<or> view_key \<in> cache s then DoNothing
      else if print_views (the_config e)
      then PrettyPrint (rename_table_references (the_world e) v (the_mapping e))
      else Materialize (rename_table_references (the_world e) v (the_mapping e)))"

definition process_ready :: "env \<Rightarrow> view_key \<Rightarrow> engine \<Rightarrow> exn option \<times> engine" where
  \<comment> \<open>lines 168-197: the body of \<open>for view_key in dag.get_ready()\<close>. The result is the
      exception raised, if any, and the state reached.\<close>
  "process_ready e view_key s =
     (if view_key \<notin> set (selected_view_keys e)
      then (None, s\<lparr>dag_state := dag_mark_done view_key (dag_state s)\<rparr>)
      else
        let s1 = s\<lparr>execution_order := execution_order s @ [view_key]\<rparr>
        in (case dag_getitem (dag_state s1) view_key of
              Inl x \<Rightarrow> (Some x, s1)
            | Inr v \<Rightarrow>
                (case any_dependency_failed (the_client e) (skipped s1) (exceptions s1)
                        (dependencies v) of
                   Inl x \<Rightarrow> (Some x, s1)
                 | Inr True \<Rightarrow>
                     (None, s1\<lparr>skipped := insert view_key (skipped s1),
                               dag_state := dag_mark_done view_key (dag_state s1)\<rparr>)
                 | Inr False \<Rightarrow>
                     (let j = choose_job e s1 view_key v
                      in (None, s1\<lparr>jobs := AList.update view_key j (jobs s1),
                                   jobs_started_at :=
                                     AList.update view_key (turn s1) (jobs_started_at s1),
                                   trace := trace s1 @ [Submit view_key j]\<rparr>)))))"

fun process_all_ready :: "env \<Rightarrow> view_key list \<Rightarrow> engine \<Rightarrow> exn option \<times> engine" where
  "process_all_ready e [] s = (None, s)"
| "process_all_ready e (view_key # rest) s =
     (case process_ready e view_key s of
        (Some x, s') \<Rightarrow> (Some x, s')
      | (None, s') \<Rightarrow> process_all_ready e rest s')"

fun poll_jobs :: "env \<Rightarrow> view_key list \<Rightarrow> engine \<Rightarrow> exn option \<times> engine" where
  \<comment> \<open>lines 201-208: \<open>for view_key in jobs_started_at\<close>. A finished job that raised has its
      exception raised again at line 207; the assignment of line 208 follows the \<open>raise\<close>
      and is never reached.\<close>
  "poll_jobs e [] s = (None, s)"
| "poll_jobs e (view_key # rest) s =
     (if view_key \<in> fst ` set (jobs_ended_at s) then poll_jobs e rest s
      else case map_of (jobs s) view_key of
             None \<Rightarrow> (Some KeyError, s)
           | Some j \<Rightarrow>
               if \<not> job_done (the_world e) view_key (turn s) then poll_jobs e rest s
               else
                 let s1 = s\<lparr>dag_state := dag_mark_done view_key (dag_state s),
                            jobs_ended_at := AList.update view_key (turn s) (jobs_ended_at s)\<rparr>
                 in (case job_exception (the_world e) j of
                       Some x \<Rightarrow> (Some x, s1)
                     | None \<Rightarrow> poll_jobs e rest s1))"

definition poll_cycle :: "env \<Rightarrow> engine \<Rightarrow> exn option \<times> engine" where
  \<comment> \<open>one turn of \<open>while dag.is_active()\<close>: lines 166-210 (the progress display changes
      nothing of the state)\<close>
  "poll_cycle e s =
     (let (ready, d) = dag_get_ready (dag_state s)
      in case process_all_ready e ready (s\<lparr>dag_state := d\<rparr>) of
           (Some x, s1) \<Rightarrow> (Some x, s1)
         | (None, s1) \<Rightarrow>
             (case poll_jobs e (map fst (jobs_started_at s1)) s1 of
                (Some x, s2) \<Rightarrow> (Some x, s2)
              | (None, s2) \<Rightarrow> (None, s2\<lparr>turn := Suc (turn s2)\<rparr>)))"

fun poll_loop :: "nat \<Rightarrow> env \<Rightarrow> engine \<Rightarrow> (exn option \<times> engine) option" where
  \<comment> \<open>\<open>while dag.is_active(): ...\<close> with fuel: \<open>None\<close> when the loop is still running after
      \<open>fuel\<close> turns\<close>
  "poll_loop fuel e s =
     (if \<not> dag_is_active (dag_state s) then Some (None, s)
      else case fuel of
             0 \<Rightarrow> None
           | Suc n \<Rightarrow>
               (case poll_cycle e s of
                  (Some x, s') \<Rightarrow> Some (Some x, s')
                | (None, s') \<Rightarrow> poll_loop n e s'))"

declare poll_loop.simps [simp del]

section \<open>After the loop: the cache, the summary, the outcome\<close>

definition save_cache :: "engine \<Rightarrow> view_key set option" where
  \<comment> \<open>lines 212-227: the new content of \<open>.cache.pkl\<close>; \<open>None\<close> when the file is unlinked\<close>
  "save_cache s =
     (let all_done = (exceptions s = [] \<and> skipped s = {});
          new_cache =
            (if all_done then {}
             else cache s \<union> {view_key \<in> set (execution_order s).
                               view_key \<notin> fst ` set (exceptions s) \<and> view_key \<notin> skipped s})
      in if new_cache \<noteq> {} then Some new_cache else None)"

definition persisted :: "view_key set option \<Rightarrow> view_key set" where
  \<comment> \<open>the cache a file holds: no file is the empty cache\<close>
  "persisted f = (case f of None \<Rightarrow> {} | Some c \<Rightarrow> c)"

definition summary_rows :: "engine \<Rightarrow> (string \<times> int) list" where
  \<comment> \<open>lines 236-241: a row is added only for a count that is not zero\<close>
  "summary_rows s =
     (let n_success = int (length (jobs_ended_at s)) - int (length (exceptions s));
          n_errored = int (length (exceptions s));
          n_skipped = int (card (skipped s))
      in (if n_success \<noteq> 0 then [(SUCCESS, n_success)] else [])
         @ (if n_errored \<noteq> 0 then [(ERRORED, n_errored)] else [])
         @ (if n_skipped \<noteq> 0 then [(SKIPPED, n_skipped)] else []))"

record outcome =
  raised :: "exn option"
  events :: "event list"
  cache_file :: "view_key set option"
  locals :: "engine option"

definition finish :: "config \<Rightarrow> world \<Rightarrow> engine \<Rightarrow> outcome" where
  \<comment> \<open>lines 212-251, after the loop has ended without an exception\<close>
  "finish cfg w s =
     (let file = save_cache s
      in if print_views cfg \<or> silent cfg
         then \<lparr>raised = None, events = trace s, cache_file = file, locals = Some s\<rparr>
         else
           let tr = trace s @ [Console Took, Console (Summary (summary_rows s))]
                      @ map (\<lambda>(view_key, x). Console (ErrorDetail view_key x)) (exceptions s)
           in \<lparr>raised = (if exceptions s \<noteq> [] \<and> fail_fast cfg
                          then Some AggregateFailure else None),
                events = tr, cache_file = file, locals = Some s\<rparr>)"

definition initial_engine :: "dag \<Rightarrow> view_key set \<Rightarrow> event list \<Rightarrow> engine" where
  \<comment> \<open>lines 149-158 and \<open>dag.prepare()\<close>\<close>
  "initial_engine d loaded tr =
     \<lparr>dag_state = dag_prepare d, jobs = [], execution_order = [], jobs_started_at = [],
      jobs_ended_at = [], exceptions = [], skipped = {}, cache = loaded, turn = 0,
      trace = tr\<rparr>"

definition run :: "client \<Rightarrow> config \<Rightarrow> world \<Rightarrow> nat \<Rightarrow> outcome option" where
  \<comment> \<open>\<open>run(client, views_dir, select, ..., fail_fast, console)\<close>; \<open>None\<close> when the poll loop
      is still running after \<open>fuel\<close> turns. An exception leaves \<open>.cache.pkl\<close> as it was.\<close>
  "run c cfg w fuel =
     (let is_silent = (print_views cfg \<or> silent cfg);
          views = filter (\<lambda>v. schema v \<notin> {''tests'', ''funcs''}) (open_views w)
      in case make_dag w views of
           Inl x \<Rightarrow> Some \<lparr>raised = Some x, events = [], cache_file = cache_pkl w, locals = None\<rparr>
         | Inr d \<Rightarrow>
             let selected = (if select cfg \<noteq> [] then dag_select w d (select cfg) else dag_keys d);
                 tr0 = console_log is_silent
                         (SelectedOutOf (length (remdups selected)) (length views)) []
             in (case make_table_reference_mapping (dag_keys d) c selected (freeze_unselected cfg) of
                  Inl x \<Rightarrow>
                    Some \<lparr>raised = Some x, events = tr0, cache_file = cache_pkl w, locals = None\<rparr>
                | Inr mapping \<Rightarrow>
                    (case list_tables c (duckdb_tables w) of
                       Inl x \<Rightarrow>
                         Some \<lparr>raised = Some x, events = tr0, cache_file = cache_pkl w,
                               locals = None\<rparr>
                     | Inr tables \<Rightarrow>
                    (case remove_orphans c d (dry cfg) is_silent tables tr0 of
                       (Some x, tr1) \<Rightarrow>
                         Some \<lparr>raised = Some x, events = tr1, cache_file = cache_pkl w,
                               locals = None\<rparr>
                     | (None, tr1) \<Rightarrow>
                         let loaded = (if fresh cfg then {} else persisted (cache_pkl w));
                             tr2 = console_log is_silent (AlreadyDone (card loaded)) tr1;
                             e = \<lparr>the_client = c, the_config = cfg, the_world = w,
                                  selected_view_keys = selected, the_mapping = mapping\<rparr>
                         in (case poll_loop fuel e (initial_engine d loaded tr2) of
                               None \<Rightarrow> None
                             | Some (Some x, s) \<Rightarrow>
                                 Some \<lparr>raised = Some x, events = trace s,
                                       cache_file = cache_pkl w, locals = Some s\<rparr>
                             | Some (None, s) \<Rightarrow> Some (finish cfg w s))))))"

section \<open>Dependencies of a script-defined view\<close>

text \<open>
  The syntax tree that \<open>ast.parse\<close> returns, as far as \<open>PythonView.dependencies\<close> looks at it:
  a \<open>Name\<close> has an \<open>id\<close>, an \<open>Attribute\<close> a \<open>value\<close> and an \<open>attr\<close>, a \<open>Call\<close> a \<open>func\<close>, its
  positional \<open>args\<close> and its keywords, a \<open>Constant\<close> a \<open>value\<close> that is no node. \<open>ValueNode\<close>
  stands for every other node with a field \<open>value\<close> that holds a node (a subscript, a starred
  expression, an expression statement, a return), \<open>OtherNode\<close> for every node with none of
  these fields (a module, a binary operation, an f-string), given by its children.
\<close>

datatype const_value = Str string | Num int | NoneValue

datatype node =
    Name string
  | Attribute node string
  | Call node "node list" "node list"
  | Constant const_value
  | ValueNode node
  | OtherNode "node list"

datatype py_value = ConstValue const_value | NodeValue node

fun iter_child_nodes :: "node \<Rightarrow> node list" where
  "iter_child_nodes (Name i) = []"
| "iter_child_nodes (Attribute v a) = [v]"
| "iter_child_nodes (Call f args keywords) = f # args @ keywords"
| "iter_child_nodes (Constant c) = []"
| "iter_child_nodes (ValueNode v) = [v]"
| "iter_child_nodes (OtherNode children) = children"

lemma children_smaller:
  "sum_list (map (\<lambda>x. Suc (size x)) (iter_child_nodes n)) < Suc (size n)"
  by (cases n) (simp_all add: size_list_conv_sum_list sum_list_Suc)

function walk :: "node list \<Rightarrow> node list" where
  \<comment> \<open>\<open>ast.walk\<close>: breadth first, from a queue of nodes still to visit\<close>
  "walk [] = []"
| "walk (n # todo) = n # walk (todo @ iter_child_nodes n)"
  by pat_completeness auto
termination
proof (relation "measure (\<lambda>todo. sum_list (map (\<lambda>x. Suc (size x)) todo))")
  show "wf (measure (\<lambda>todo. sum_list (map (\<lambda>x. Suc (size x)) todo)))"
    by simp
next
  fix n :: node and todo :: "node list"
  show "(todo @ iter_child_nodes n, n # todo)
      \<in> measure (\<lambda>todo. sum_list (map (\<lambda>x. Suc (size x)) todo))"
    using children_smaller [of n] by simp
qed

definition bind_exn :: "exn + 'a \<Rightarrow> ('a \<Rightarrow> exn + 'b) \<Rightarrow> exn + 'b" where
  \<comment> \<open>evaluate, and go on unless an exception was raised\<close>
  "bind_exn r f = (case r of Inl x \<Rightarrow> Inl x | Inr v \<Rightarrow> f v)"

definition attr_value :: "node \<Rightarrow> exn + py_value" where
  \<comment> \<open>\<open>node.value\<close>\<close>
  "attr_value n =
     (case n of
        Attribute v a \<Rightarrow> Inr (NodeValue v)
      | Constant c \<Rightarrow> Inr (ConstValue c)
      | ValueNode v \<Rightarrow> Inr (NodeValue v)
      | _ \<Rightarrow> Inl AttributeError)"

definition attr_id :: "py_value \<Rightarrow> exn + string" where
  \<comment> \<open>\<open>x.id\<close>\<close>
  "attr_id x = (case x of NodeValue (Name i) \<Rightarrow> Inr i | _ \<Rightarrow> Inl AttributeError)"

definition attr_attr :: "node \<Rightarrow> exn + string" where
  \<comment> \<open>\<open>node.attr\<close>\<close>
  "attr_attr n = (case n of Attribute v a \<Rightarrow> Inr a | _ \<Rightarrow> Inl AttributeError)"

definition first_arg :: "node list \<Rightarrow> exn + node" where
  \<comment> \<open>\<open>node.args[0]\<close>\<close>
  "first_arg args = (case args of [] \<Rightarrow> Inl IndexError | a # _ \<Rightarrow> Inr a)"

definition first_arg_value :: "node list \<Rightarrow> exn + py_value" where
  \<comment> \<open>\<open>node.args[0].value\<close>\<close>
  "first_arg_value args = bind_exn (first_arg args) attr_value"

text \<open>
  \<open>SQLView.parse_dependencies\<close> is not among the sources: it is the parameter \<open>parse\<close> below,
  from the value it is given to the identifiers it yields or the exception it raises.
\<close>

definition read_gbq_block :: "(py_value \<Rightarrow> exn + string list) \<Rightarrow> node \<Rightarrow> exn + string list" where
  \<comment> \<open>lines 21-26, the body of the first \<open>try\<close>\<close>
  "read_gbq_block parse n =
     (case n of
        Call func args keywords \<Rightarrow>
          bind_exn (attr_value func) (\<lambda>v.
          bind_exn (attr_id v) (\<lambda>i.
            if i \<noteq> ''pd'' then Inr []
            else bind_exn (attr_attr func) (\<lambda>a.
              if a \<noteq> ''read_gbq'' then Inr []
              else bind_exn (first_arg_value args) parse)))
      | _ \<Rightarrow> Inr [])"

definition query_block :: "(py_value \<Rightarrow> exn + string list) \<Rightarrow> node \<Rightarrow> exn + string list" where
  \<comment> \<open>lines 32-33, the body of the second \<open>try\<close>\<close>
  "query_block parse n =
     (case n of
        Call func args keywords \<Rightarrow>
          bind_exn (attr_attr func) (\<lambda>a.
            if \<not> prefix ''query'' a then Inr []
            else bind_exn (first_arg_value args) parse)
      | _ \<Rightarrow> Inr [])"

definition except_AttributeError :: "exn + string list \<Rightarrow> exn + string list" where
  \<comment> \<open>\<open>except AttributeError: pass\<close>: any other exception goes on\<close>
  "except_AttributeError r = (case r of Inl AttributeError \<Rightarrow> Inr [] | _ \<Rightarrow> r)"

definition node_dependencies :: "(py_value \<Rightarrow> exn + string list) \<Rightarrow> node \<Rightarrow> exn + string list" where
  \<comment> \<open>the body of the loop over \<open>ast.walk(...)\<close>\<close>
  "node_dependencies parse n =
     bind_exn (except_AttributeError (read_gbq_block parse n)) (\<lambda>xs.
     bind_exn (except_AttributeError (query_block parse n)) (\<lambda>ys. Inr (xs @ ys)))"

fun collect_dependencies :: "(py_value \<Rightarrow> exn + string list) \<Rightarrow> node list \<Rightarrow> exn + string list" where
  "collect_dependencies parse [] = Inr []"
| "collect_dependencies parse (n # ns) =
     bind_exn (node_dependencies parse n) (\<lambda>xs.
     bind_exn (collect_dependencies parse ns) (\<lambda>ys. Inr (xs @ ys)))"

definition PythonView_dependencies :: "(py_value \<Rightarrow> exn + string list) \<Rightarrow> node \<Rightarrow> exn + string set" where
  \<comment> \<open>\<open>PythonView.dependencies\<close>, of the tree \<open>ast.parse(self.source_code)\<close>\<close>
  "PythonView_dependencies parse tree =
     bind_exn (collect_dependencies parse (walk [tree])) (\<lambda>xs. Inr (set xs))"

section \<open>Example runs\<close>

text \<open>
  The graph of the spec's examples: A with no dependency, B that reads A, C that reads B; and
  beside it D, which depends on nothing.
\<close>

definition view_a :: view where
  "view_a = \<lparr>key = [''core'', ''a''], schema = ''core'', kind = SQLView,
             source_code = ''SELECT 1 AS x'', dependencies = []\<rparr>"

definition view_b :: view where
  "view_b = \<lparr>key = [''core'', ''b''], schema = ''core'', kind = SQLView,
             source_code = ''SELECT x FROM core.a'', dependencies = [''core.a'']\<rparr>"

definition view_c :: view where
  "view_c = \<lparr>key = [''core'', ''c''], schema = ''core'', kind = SQLView,
             source_code = ''SELECT x FROM core.b'', dependencies = [''core.b'']\<rparr>"

definition view_d :: view where
  "view_d = \<lparr>key = [''core'', ''d''], schema = ''core'', kind = SQLView,
             source_code = ''SELECT 2 AS y'', dependencies = []\<rparr>"

definition graph_of :: "view list \<Rightarrow> dag" where
  \<comment> \<open>the graph of some views: an edge for each dependency \<open>schema.name\<close>\<close>
  "graph_of vs =
     \<lparr>dag_views = map (\<lambda>v. (key v, v)) vs,
      dag_edges = map (\<lambda>v. (key v, map (\<lambda>r. split_str ''.'' r) (dependencies v))) vs,
      done_keys = {}, returned_keys = {}\<rparr>"

definition duck :: client where
  "duck = \<lparr>path = PosixPath ''warehouse'', username = None\<rparr>"

definition default_config :: config where
  "default_config =
     \<lparr>select = [], freeze_unselected = False, print_views = False, dry = False,
      silent = False, fresh = False, threads = 8, show_rows = 20, fail_fast = False\<rparr>"

definition boom :: exn where
  "boom = JobError ''Catalog Error: column x does not exist''"

definition world_b_fails :: "view list \<Rightarrow> world" where
  \<comment> \<open>every job is finished when first polled, D apart, which is finished from turn 5 on;
      materializing B raises\<close>
  "world_b_fails vs =
     \<lparr>open_views = vs, make_dag = (\<lambda>vs. Inr (graph_of vs)), dag_select = (\<lambda>d patterns. []),
      duckdb_tables = [], SQLView_rename_table_references = (\<lambda>v m. v), cache_pkl = None,
      job_done = (\<lambda>k t. if k = [''core'', ''d''] then 5 \<le> t else True),
      materialize_view = (\<lambda>v. if key v = [''core'', ''b''] then Some boom else None)\<rparr>"


section \<open>Reading the trace of a run\<close>




text \<open>
  Of a trace: the tables dropped, in order, and the tables reported as removed, in order.
  \<open>submits_only s s'\<close>: from \<open>s\<close> to \<open>s'\<close> the trace has grown by submissions of jobs only.
\<close>

definition dropped :: "event list \<Rightarrow> string list" where
  "dropped tr = concat (map (\<lambda>ev. case ev of DropTable r \<Rightarrow> [r] | _ \<Rightarrow> []) tr)"



section \<open>Properties of the key and reference translation\<close>

lemma find_sep_None_iff:
  "sep \<noteq> [] \<Longrightarrow> find_sep sep s = None \<longleftrightarrow> \<not> contains_str sep s"
  by (induction s) auto

lemma split_str_no_sep:
  "sep \<noteq> [] \<Longrightarrow> \<not> contains_str sep s \<Longrightarrow> split_str sep s = [s]"
  using find_sep_None_iff [of sep s] by (simp add: split_str.simps)

lemma split_str_cut:
  "find_sep sep s = Some (a, b) \<Longrightarrow> sep \<noteq> [] \<Longrightarrow> split_str sep s = a # split_str sep b"
  by (simp add: split_str.simps [of sep s])

lemma find_sep_dot:
  "\<not> contains_str ''.'' a \<Longrightarrow> find_sep ''.'' (a @ ''.'' @ b) = Some (a, b)"
  by (induction a) auto

lemma find_sep_SEP:
  "\<not> contains_str SEP a \<Longrightarrow> a = [] \<or> last a \<noteq> CHR ''_'' \<Longrightarrow>
   find_sep SEP (a @ SEP @ b) = Some (a, b)"
proof (induction a)
  case Nil
  then show ?case by (simp add: SEP_def)
next
  case (Cons x xs)
  then show ?case
    by (cases xs) (auto simp: SEP_def split: if_splits)
qed

lemma split_join:
  "xs \<noteq> [] \<Longrightarrow> \<forall>x\<in>set xs. \<not> contains_str SEP x \<Longrightarrow>
   \<forall>x\<in>set (butlast xs). x = [] \<or> last x \<noteq> CHR ''_'' \<Longrightarrow>
   split_str SEP (join_str SEP xs) = xs"
proof (induction SEP xs rule: join_str.induct)
  case 1
  then show ?case by simp
next
  case (2 x)
  then show ?case by (simp add: split_str_no_sep SEP_def)
next
  case (3 x y ys)
  then have "find_sep SEP (x @ SEP @ join_str SEP (y # ys)) = Some (x, join_str SEP (y # ys))"
    by (intro find_sep_SEP) auto
  moreover have "split_str SEP (join_str SEP (y # ys)) = y # ys"
    using 3 by auto
  moreover have "SEP \<noteq> []" by (simp add: SEP_def)
  ultimately have "split_str SEP (x @ SEP @ join_str SEP (y # ys)) = x # y # ys"
    by (simp add: split_str_cut)
  then show ?case by simp
qed

lemma roundtrip_motherduck:
  assumes "k \<noteq> []" and "path c = MotherDuck s"
  shows "roundtrip c k with_username = Inl AttributeError"
proof -
  from assms(1) obtain schema leftover where k: "k = schema # leftover"
    by (cases k) auto
  have "\<exists>a b. find_sep ''.'' (x @ ''.'' @ y) = Some (a, b)" for x y :: string
    by (induction x) auto
  then obtain a b where "find_sep ''.'' (schema @ ''.'' @ join_str SEP leftover) = Some (a, b)"
    by blast
  with assms(2) show ?thesis
    by (simp add: roundtrip_def view_key_to_table_reference_def Let_def
        table_reference_to_view_key_def split_maxsplit1_def path_stem_def k)
qed

text \<open>
  Claim C8, as stated: every non-empty ViewKey whose components contain neither a dot nor the
  separator comes back unchanged from the translation to a table reference and back, when no
  username scope is applied. Three keys of that shape do not come back: a key of one
  component returns with an empty name appended; a key whose schema is the name of the
  database makes the way back raise ValueError; a name component that ends in an underscore
  moves the cut of the separator one character to the left.
\<close>

theorem C8_roundtrip_counterexample:
  "roundtrip \<lparr>path = PosixPath ''db'', username = None\<rparr> [''schema''] False
     = Inr [''schema'', []]
   \<and> roundtrip \<lparr>path = PosixPath ''analytics'', username = None\<rparr>
       [''analytics'', ''orders''] False
       = Inl ValueError
   \<and> roundtrip \<lparr>path = PosixPath ''db'', username = None\<rparr> [''s'', ''a_'', ''b''] False
       = Inr [''s'', ''a'', ''_b'']"
  by code_simp

text \<open>
  Claim C8, amended: for a client whose database is a file, of stem \<open>stem\<close>, a ViewKey of at
  least two components (a schema and a name), whose components contain neither a dot nor the
  separator, whose schema is not \<open>stem\<close>, and whose name components, the last one apart, do
  not end in an underscore, comes back unchanged from the translation to a table reference
  and back, when no username scope is applied. (For a MotherDuck client the way back raises
  AttributeError on every key: \<open>roundtrip_motherduck\<close>.)
\<close>

theorem C8_roundtrip:
  assumes "path c = PosixPath stem"
    and "2 \<le> length k"
    and "\<forall>x\<in>set k. \<not> contains_str ''.'' x \<and> \<not> contains_str SEP x"
    and "hd k \<noteq> stem"
    and "\<forall>x\<in>set (butlast (tl k)). x = [] \<or> last x \<noteq> CHR ''_''"
    and "\<not> (with_username \<and> username_truthy c)"
  shows "roundtrip c k with_username = Inr k"
proof -
  from assms(2) obtain schema leftover where k: "k = schema # leftover" and l: "leftover \<noteq> []"
    by (cases k) (auto simp: Suc_le_eq)
  have nodot: "\<not> contains_str ''.'' schema"
    using assms(3) k by simp
  have sj: "split_str SEP (join_str SEP leftover) = leftover"
    using l assms(3,5) k by (intro split_join) auto
  have fs: "find_sep ''.'' (schema @ ''.'' @ join_str SEP leftover)
      = Some (schema, join_str SEP leftover)"
    using nodot by (rule find_sep_dot)
  have ne: "schema \<noteq> stem"
    using assms(4) k by simp
  show ?thesis
    using assms(1,6) fs sj ne
    by (auto simp: roundtrip_def view_key_to_table_reference_def
        table_reference_to_view_key_def split_maxsplit1_def path_stem_def k)
qed

theorem C8_roundtrip_witness:
  "roundtrip \<lparr>path = PosixPath ''db'', username = Some ''max''\<rparr>
     [''schema'', ''subschema'', ''table''] False
   = Inr [''schema'', ''subschema'', ''table'']"
  using C8_roundtrip [of "\<lparr>path = PosixPath ''db'', username = Some ''max''\<rparr>" "''db''"
      "[''schema'', ''subschema'', ''table'']" False]
  by (simp add: SEP_def)

section \<open>Properties of script-defined views\<close>

text \<open>
  Claim C10: for every script-defined view and every table reference mapping,
  \<open>rename_table_references\<close> returns the view itself, unchanged; the mapping is ignored (two
  mappings give the same view).
\<close>

theorem C10_python_rename_is_identity:
  "PythonView_rename_table_references v m = v
   \<and> PythonView_rename_table_references v m = PythonView_rename_table_references v m'"
  by (simp add: PythonView_rename_table_references_def)

section \<open>Properties of the table reference mapping\<close>

text \<open>
  Claim C2 says that with freeze-unselected the function returns a mapping whose domain is
  the selected set. The function returns no mapping there: reading the unbound name
  \<open>select\<close> raises NameError, whatever the DAG, the client and the selection are. Here the
  DAG of the spec's example, A, B and C, with C selected.
\<close>

theorem C2_frozen_mapping_raises:
  "make_table_reference_mapping
     [[''core'', ''a''], [''core'', ''b''], [''core'', ''c'']]
     \<lparr>path = PosixPath ''db_max'', username = Some ''max''\<rparr>
     [[''core'', ''c'']] True
   = Inl (NameError ''select'')"
  by (simp add: make_table_reference_mapping_def mapping_locals_def module_names_def)

section \<open>Properties of the run\<close>

text \<open>
  Claim C1 says that a job's failure is recorded in the errored set and that the loop goes on
  draining the graph. In the run of A, B, C and D where materializing B fails, the exception
  of B leaves the poll loop and \<open>run\<close>: nothing is recorded in \<open>exceptions\<close>, the graph is
  still active, and D, started and still in flight, is never looked at again.
\<close>

theorem C1_job_exception_leaves_the_loop:
  "(case run duck default_config (world_b_fails [view_a, view_b, view_c, view_d]) 10 of
      None \<Rightarrow> False
    | Some r \<Rightarrow>
        raised r = Some boom
        \<and> (case locals r of
             None \<Rightarrow> False
           | Some s \<Rightarrow>
               exceptions s = [] \<and> dag_is_active (dag_state s)
               \<and> [''core'', ''d''] \<in> fst ` set (jobs_started_at s)
               \<and> [''core'', ''d''] \<notin> fst ` set (jobs_ended_at s)))"
  by code_simp

text \<open>
  Claim C4 says that \<open>run\<close> returns normally when fail-fast is off, and that with fail-fast on
  it raises one aggregate failure once the graph is drained and the cache saved. In the run
  of A, B and C where materializing B fails, \<open>run\<close> raises the exception of B itself, with
  fail-fast off as with fail-fast on, while C is not done and with no cache written (A had
  succeeded).
\<close>

theorem C4_failure_raised_whatever_fail_fast:
  "(case run duck (default_config\<lparr>fail_fast := False\<rparr>)
           (world_b_fails [view_a, view_b, view_c]) 10 of
      None \<Rightarrow> False
    | Some r \<Rightarrow> raised r = Some boom)
   \<and> (case run duck (default_config\<lparr>fail_fast := True\<rparr>)
             (world_b_fails [view_a, view_b, view_c]) 10 of
        None \<Rightarrow> False
      | Some r \<Rightarrow>
          raised r = Some boom \<and> raised r \<noteq> Some AggregateFailure \<and> cache_file r = None
          \<and> (case locals r of
               None \<Rightarrow> False
             | Some s \<Rightarrow> [''core'', ''c''] \<notin> done_keys (dag_state s)
                 \<and> [''core'', ''a''] \<in> fst ` set (jobs_ended_at s)))"
  by code_simp

subsection \<open>Nothing is ever recorded as errored or skipped\<close>

text \<open>
  The errored map is written at line 208 only, which follows the \<open>raise\<close> of line 207; the
  skipped set is written at line 178 only, when a dependency is in the errored map or in the
  skipped set. Both are empty when the loop starts, and stay empty.
\<close>

lemma adf_nothing_recorded: "any_dependency_failed c {} [] rs \<noteq> Inr True"
  by (induction rs) (auto split: sum.splits)

lemma process_ready_records:
  assumes "process_ready e v s = (r, s')" and "exceptions s = []" and "skipped s = {}"
  shows "exceptions s' = [] \<and> skipped s' = {}"
proof (cases "v \<in> set (selected_view_keys e)")
  case False
  with assms show ?thesis
    by (auto simp: process_ready_def)
next
  case sel: True
  show ?thesis
  proof (cases "dag_getitem (dag_state s) v")
    case (Inl x)
    with assms sel show ?thesis
      by (auto simp: process_ready_def)
  next
    case vw: (Inr vw)
    show ?thesis
    proof (cases "any_dependency_failed (the_client e) {} [] (dependencies vw)")
      case (Inl x)
      with assms sel vw show ?thesis
        by (auto simp: process_ready_def)
    next
      case (Inr b)
      with adf_nothing_recorded [of "the_client e" "dependencies vw"] have "\<not> b"
        by auto
      with Inr assms sel vw show ?thesis
        by (auto simp: process_ready_def Let_def)
    qed
  qed
qed

lemma process_all_ready_records:
  "process_all_ready e vs s = (r, s') \<Longrightarrow> exceptions s = [] \<Longrightarrow> skipped s = {} \<Longrightarrow>
   exceptions s' = [] \<and> skipped s' = {}"
proof (induction vs arbitrary: s)
  case Nil
  then show ?case by simp
next
  case (Cons v vs)
  obtain r1 s1 where p: "process_ready e v s = (r1, s1)"
    by (cases "process_ready e v s")
  from process_ready_records [OF p Cons.prems(2,3)]
  have clean: "exceptions s1 = []" "skipped s1 = {}"
    by simp_all
  show ?case
  proof (cases r1)
    case None
    with Cons.prems(1) p have "process_all_ready e vs s1 = (r, s')"
      by simp
    from Cons.IH [OF this clean] show ?thesis .
  next
    case (Some x)
    with Cons.prems(1) p have "s' = s1"
      by simp
    with clean show ?thesis by simp
  qed
qed

lemma poll_jobs_records:
  "poll_jobs e ks s = (r, s') \<Longrightarrow>
   exceptions s' = exceptions s \<and> skipped s' = skipped s \<and> trace s' = trace s"
proof (induction ks arbitrary: s)
  case Nil
  then show ?case by simp
next
  case (Cons k ks)
  then show ?case
    by (auto simp: Let_def split: if_splits option.splits)
qed

lemma poll_cycle_parts:
  assumes "poll_cycle e s = (r, s')"
  obtains ready d r1 s1 where "dag_get_ready (dag_state s) = (ready, d)"
    and "process_all_ready e ready (s\<lparr>dag_state := d\<rparr>) = (r1, s1)"
    and "exceptions s' = exceptions s1" and "skipped s' = skipped s1"
    and "trace s' = trace s1"
proof -
  obtain ready d where g: "dag_get_ready (dag_state s) = (ready, d)"
    by (cases "dag_get_ready (dag_state s)")
  obtain r1 s1 where p1: "process_all_ready e ready (s\<lparr>dag_state := d\<rparr>) = (r1, s1)"
    by (cases "process_all_ready e ready (s\<lparr>dag_state := d\<rparr>)")
  have "exceptions s' = exceptions s1 \<and> skipped s' = skipped s1 \<and> trace s' = trace s1"
  proof (cases r1)
    case (Some x)
    with assms g p1 show ?thesis
      by (simp add: poll_cycle_def)
  next
    case None
    obtain r2 s2 where p2: "poll_jobs e (map fst (jobs_started_at s1)) s1 = (r2, s2)"
      by (cases "poll_jobs e (map fst (jobs_started_at s1)) s1")
    from assms g p1 p2 None
    have "exceptions s' = exceptions s2 \<and> skipped s' = skipped s2 \<and> trace s' = trace s2"
      by (cases r2) (auto simp: poll_cycle_def)
    with poll_jobs_records [OF p2] show ?thesis
      by simp
  qed
  with g p1 that show ?thesis
    by blast
qed

lemma poll_cycle_records:
  assumes "poll_cycle e s = (r, s')" and "exceptions s = []" and "skipped s = {}"
  shows "exceptions s' = [] \<and> skipped s' = {}"
proof -
  from assms(1) obtain ready d r1 s1 where
    p1: "process_all_ready e ready (s\<lparr>dag_state := d\<rparr>) = (r1, s1)"
    and eq: "exceptions s' = exceptions s1" "skipped s' = skipped s1"
    by (rule poll_cycle_parts)
  from process_all_ready_records [OF p1] assms(2,3) eq show ?thesis
    by simp
qed

lemma poll_loop_step:
  assumes "poll_loop fuel e s = Some (r, s')"
  shows "(\<not> dag_is_active (dag_state s) \<and> r = None \<and> s' = s)
       \<or> (\<exists>n x. fuel = Suc n \<and> poll_cycle e s = (Some x, s') \<and> r = Some x)
       \<or> (\<exists>n s1. fuel = Suc n \<and> poll_cycle e s = (None, s1)
            \<and> poll_loop n e s1 = Some (r, s'))"
proof (cases "dag_is_active (dag_state s)")
  case False
  with assms show ?thesis
    by (simp add: poll_loop.simps [of fuel])
next
  case True
  with assms obtain n where n: "fuel = Suc n"
    by (cases fuel) (simp_all add: poll_loop.simps [of 0])
  obtain r1 s1 where c: "poll_cycle e s = (r1, s1)"
    by (cases "poll_cycle e s")
  from assms True n c show ?thesis
    by (cases r1) (auto simp: poll_loop.simps [of "Suc n"])
qed

lemma poll_loop_records:
  "poll_loop fuel e s = Some (r, s') \<Longrightarrow> exceptions s = [] \<Longrightarrow> skipped s = {} \<Longrightarrow>
   exceptions s' = [] \<and> skipped s' = {}"
proof (induction fuel arbitrary: s)
  case 0
  from poll_loop_step [OF "0.prems"(1)] "0.prems"(2,3) show ?case
    by auto
next
  case (Suc n)
  from poll_loop_step [OF Suc.prems(1)] show ?case
  proof (elim disjE exE conjE)
    assume "s' = s"
    with Suc.prems(2,3) show ?thesis by simp
  next
    fix m x
    assume "poll_cycle e s = (Some x, s')"
    from poll_cycle_records [OF this Suc.prems(2,3)] show ?thesis .
  next
    fix m s1
    assume m: "Suc n = Suc m" and c: "poll_cycle e s = (None, s1)"
      and l: "poll_loop m e s1 = Some (r, s')"
    from poll_cycle_records [OF c Suc.prems(2,3)]
    have "exceptions s1 = []" "skipped s1 = {}"
      by simp_all
    with Suc.IH [of s1] m l show ?thesis
      by simp
  qed
qed

lemma run_cases:
  assumes rn: "run c cfg w fuel = Some r"
  shows "(locals r = None \<and> raised r \<noteq> None \<and> cache_file r = cache_pkl w)
       \<or> (\<exists>e d loaded tr x s.
             poll_loop fuel e (initial_engine d loaded tr) = Some (x, s)
             \<and> locals r = Some s
             \<and> (case x of
                  Some y \<Rightarrow> raised r = Some y \<and> cache_file r = cache_pkl w
                | None \<Rightarrow> r = finish cfg w s))"
proof -
  define is_silent where "is_silent = (print_views cfg \<or> silent cfg)"
  define views where "views = filter (\<lambda>v. schema v \<notin> {''tests'', ''funcs''}) (open_views w)"
  show ?thesis
  proof (cases "make_dag w views")
    case (Inl x)
    with rn have "r = \<lparr>raised = Some x, events = [], cache_file = cache_pkl w, locals = None\<rparr>"
      by (simp add: run_def Let_def views_def)
    then show ?thesis by simp
  next
    case dg: (Inr d)
    define selected where
      "selected = (if select cfg \<noteq> [] then dag_select w d (select cfg) else dag_keys d)"
    define tr0 where
      "tr0 = console_log is_silent (SelectedOutOf (length (remdups selected)) (length views)) []"
    show ?thesis
    proof (cases "make_table_reference_mapping (dag_keys d) c selected (freeze_unselected cfg)")
      case (Inl x)
      with rn dg
      have "r = \<lparr>raised = Some x, events = tr0, cache_file = cache_pkl w, locals = None\<rparr>"
        by (simp add: run_def Let_def views_def selected_def tr0_def is_silent_def)
      then show ?thesis by simp
    next
      case mp: (Inr mapping)
      show ?thesis
      proof (cases "list_tables c (duckdb_tables w)")
        case (Inl x)
        with rn dg mp
        have "r = \<lparr>raised = Some x, events = tr0, cache_file = cache_pkl w, locals = None\<rparr>"
          by (simp add: run_def Let_def views_def selected_def tr0_def is_silent_def)
        then show ?thesis by simp
      next
        case lt: (Inr tables)
        obtain o1 tr1 where
          ro: "remove_orphans c d (dry cfg) is_silent tables tr0 = (o1, tr1)"
          by (cases "remove_orphans c d (dry cfg) is_silent tables tr0")
        show ?thesis
        proof (cases o1)
          case (Some x)
          with rn dg mp lt ro
          have "r = \<lparr>raised = Some x, events = tr1, cache_file = cache_pkl w, locals = None\<rparr>"
            by (simp add: run_def Let_def views_def selected_def tr0_def is_silent_def)
          then show ?thesis by simp
        next
          case None
          define loaded where "loaded = (if fresh cfg then {} else persisted (cache_pkl w))"
          define tr2 where "tr2 = console_log is_silent (AlreadyDone (card loaded)) tr1"
          define e where "e = \<lparr>the_client = c, the_config = cfg, the_world = w,
                        selected_view_keys = selected, the_mapping = mapping\<rparr>"
          from rn dg mp lt ro None have rn':
            "(case poll_loop fuel e (initial_engine d loaded tr2) of
                None \<Rightarrow> None
              | Some (Some x, s) \<Rightarrow>
                  Some \<lparr>raised = Some x, events = trace s, cache_file = cache_pkl w,
                        locals = Some s\<rparr>
              | Some (None, s) \<Rightarrow> Some (finish cfg w s)) = Some r"
            by (simp add: run_def Let_def views_def selected_def tr0_def is_silent_def
                loaded_def tr2_def e_def)
          then obtain x s where
            pl: "poll_loop fuel e (initial_engine d loaded tr2) = Some (x, s)"
            by (cases "poll_loop fuel e (initial_engine d loaded tr2)") auto
          have fin: "locals (finish cfg w s) = Some s"
            by (simp add: finish_def Let_def)
          have "locals r = Some s
              \<and> (case x of
                   Some y \<Rightarrow> raised r = Some y \<and> cache_file r = cache_pkl w
                 | None \<Rightarrow> r = finish cfg w s)"
            using rn' pl fin by (cases x) auto
          with pl show ?thesis
            by blast
        qed
      qed
    qed
  qed
qed

lemma run_never_records:
  assumes "run c cfg w fuel = Some r" and "locals r = Some s"
  shows "exceptions s = [] \<and> skipped s = {}"
proof -
  from run_cases [OF assms(1)] assms(2) obtain e d loaded tr x where
    "poll_loop fuel e (initial_engine d loaded tr) = Some (x, s)"
    by auto
  from poll_loop_records [OF this] show ?thesis
    by (simp add: initial_engine_def)
qed

text \<open>
  Claim C3 says that after a run in which a view errored or was skipped, the cache written
  is the previous cache and the views that succeeded, without the errored and the skipped
  ones. No run writes that cache: a run that returns has found the errored map and the
  skipped set empty and has removed the file; a run that raises (as the run does in which a
  job fails) has left the file as it was, whatever had succeeded before.
\<close>

theorem C3_no_run_writes_the_cache:
  assumes "run c cfg w fuel = Some r"
  shows "cache_file r = (case raised r of None \<Rightarrow> None | Some x \<Rightarrow> cache_pkl w)"
proof -
  from run_cases [OF assms] show ?thesis
  proof (elim disjE exE conjE)
    assume "raised r \<noteq> None" and "cache_file r = cache_pkl w"
    then show ?thesis by auto
  next
    fix e d loaded tr x s
    assume l: "locals r = Some s"
      and x: "case x of Some y \<Rightarrow> raised r = Some y \<and> cache_file r = cache_pkl w
                | None \<Rightarrow> r = finish cfg w s"
    from run_never_records [OF assms l] have clean: "exceptions s = []" "skipped s = {}"
      by simp_all
    show ?thesis
    proof (cases x)
      case (Some y)
      with x show ?thesis by simp
    next
      case None
      with x have "r = finish cfg w s" by simp
      with clean show ?thesis
        by (simp add: finish_def save_cache_def Let_def)
    qed
  qed
qed

text \<open>
  The run of A, B and C where materializing B fails, with no cache file before: A has
  succeeded, B has failed, and no cache file is written.
\<close>

theorem C3_failing_run_writes_no_cache:
  "(case run duck default_config (world_b_fails [view_a, view_b, view_c]) 10 of
      None \<Rightarrow> False
    | Some r \<Rightarrow>
        raised r = Some boom \<and> cache_file r = None
        \<and> (case locals r of
             None \<Rightarrow> False
           | Some s \<Rightarrow> [''core'', ''a''] \<in> fst ` set (jobs_ended_at s)
               \<and> job_exception (world_b_fails [view_a, view_b, view_c])
                    (Materialize view_a) = None))"
proof -
  have "(case run duck default_config (world_b_fails [view_a, view_b, view_c]) 10 of
      None \<Rightarrow> False
    | Some r \<Rightarrow>
        raised r = Some boom
        \<and> (case locals r of
             None \<Rightarrow> False
           | Some s \<Rightarrow> [''core'', ''a''] \<in> fst ` set (jobs_ended_at s)
               \<and> job_exception (world_b_fails [view_a, view_b, view_c])
                    (Materialize view_a) = None))"
    by code_simp
  then obtain r s where r: "run duck default_config (world_b_fails [view_a, view_b, view_c]) 10
        = Some r"
    and b: "raised r = Some boom" and s: "locals r = Some s"
    and a: "[''core'', ''a''] \<in> fst ` set (jobs_ended_at s)"
      "job_exception (world_b_fails [view_a, view_b, view_c]) (Materialize view_a) = None"
    by (auto split: option.splits)
  from C3_no_run_writes_the_cache [OF r] b have "cache_file r = None"
    by (simp add: world_b_fails_def)
  with r b s a show ?thesis
    by simp
qed

text \<open>
  Claim C5 says that a selected view with an errored or skipped dependency is put in the
  skipped set and marked done with no job, so that every view below an errored one ends
  skipped. In the code no view is ever in the skipped set, and none in the errored map:
  whatever the run, the two are empty in the state it ends in.
\<close>

theorem C5_no_view_is_ever_skipped:
  assumes "run c cfg w fuel = Some r" and "locals r = Some s"
  shows "skipped s = {} \<and> exceptions s = []"
  using run_never_records [OF assms] by simp

text \<open>
  The run of A, B and C where materializing B fails: the failure of B leaves \<open>run\<close>, and C,
  which reads B, is neither skipped nor marked done; it is never handed out by the graph.
\<close>

theorem C5_dependent_of_failed_view_is_not_skipped:
  "(case run duck default_config (world_b_fails [view_a, view_b, view_c]) 10 of
      None \<Rightarrow> False
    | Some r \<Rightarrow>
        raised r = Some boom
        \<and> (case locals r of
             None \<Rightarrow> False
           | Some s \<Rightarrow> skipped s = {} \<and> exceptions s = []
               \<and> [''core'', ''b''] \<in> fst ` set (jobs_ended_at s)
               \<and> [''core'', ''c''] \<notin> done_keys (dag_state s)
               \<and> [''core'', ''c''] \<notin> set (execution_order s)))"
proof -
  have "(case run duck default_config (world_b_fails [view_a, view_b, view_c]) 10 of
      None \<Rightarrow> False
    | Some r \<Rightarrow>
        raised r = Some boom
        \<and> (case locals r of
             None \<Rightarrow> False
           | Some s \<Rightarrow> [''core'', ''b''] \<in> fst ` set (jobs_ended_at s)
               \<and> [''core'', ''c''] \<notin> done_keys (dag_state s)
               \<and> [''core'', ''c''] \<notin> set (execution_order s)))"
    by code_simp
  then obtain r s where r: "run duck default_config (world_b_fails [view_a, view_b, view_c]) 10
        = Some r"
    and b: "raised r = Some boom" and s: "locals r = Some s"
    and c: "[''core'', ''b''] \<in> fst ` set (jobs_ended_at s)"
      "[''core'', ''c''] \<notin> done_keys (dag_state s)"
      "[''core'', ''c''] \<notin> set (execution_order s)"
    by (auto split: option.splits)
  from C5_no_view_is_ever_skipped [OF r s] r b s c show ?thesis
    by simp
qed

text \<open>
  Claim C6: for a ready ViewKey that is not selected, the engine marks it done and does
  nothing else. The state after the body of the loop is the state before, with the key marked
  done in the graph: no job is submitted and nothing is sent to the store (the trace is the
  same), nothing is added to the execution order, to the start and end times, to the
  exceptions or to the skipped set, and the rows of the summary are the same.
\<close>

theorem C6_unselected_is_only_marked_done:
  assumes "view_key \<notin> set (selected_view_keys e)"
  shows "\<exists>s'. process_ready e view_key s = (None, s')
      \<and> s' = s\<lparr>dag_state := dag_mark_done view_key (dag_state s)\<rparr>
      \<and> view_key \<in> done_keys (dag_state s')
      \<and> jobs s' = jobs s \<and> trace s' = trace s
      \<and> execution_order s' = execution_order s
      \<and> jobs_started_at s' = jobs_started_at s \<and> jobs_ended_at s' = jobs_ended_at s
      \<and> exceptions s' = exceptions s \<and> skipped s' = skipped s
      \<and> summary_rows s' = summary_rows s"
  using assms by (simp add: process_ready_def dag_mark_done_def summary_rows_def)

theorem C6_unselected_witness:
  "process_ready
     \<lparr>the_client = duck, the_config = default_config,
      the_world = world_b_fails [view_a, view_b],
      selected_view_keys = [[''core'', ''b'']], the_mapping = Some Map.empty\<rparr>
     [''core'', ''a'']
     (initial_engine (graph_of [view_a, view_b]) {} [])
   = (None, (initial_engine (graph_of [view_a, view_b]) {} [])
        \<lparr>dag_state := dag_mark_done [''core'', ''a'']
           (dag_state (initial_engine (graph_of [view_a, view_b]) {} []))\<rparr>)"
  using C6_unselected_is_only_marked_done
    [of "[''core'', ''a'']"
      "\<lparr>the_client = duck, the_config = default_config,
        the_world = world_b_fails [view_a, view_b],
        selected_view_keys = [[''core'', ''b'']], the_mapping = Some Map.empty\<rparr>"
      "initial_engine (graph_of [view_a, view_b]) {} []"]
  by simp

section \<open>Properties of the dependencies of a script-defined view\<close>

text \<open>
  Claim C9 says that the extraction never fails on a call it does not recognise. For the
  script \<open>df.query()\<close>, a call of a method whose name starts with \<open>query\<close> and that has no
  positional argument, \<open>node.args[0]\<close> raises IndexError, which the \<open>except AttributeError\<close>
  does not catch: the property raises, whatever \<open>parse_dependencies\<close> does.
\<close>

theorem C9_call_without_argument_raises:
  "PythonView_dependencies parse
     (OtherNode [ValueNode (Call (Attribute (Name ''df'') ''query'') [] [])])
   = Inl IndexError"
  by (simp add: PythonView_dependencies_def node_dependencies_def read_gbq_block_def
      query_block_def except_AttributeError_def bind_exn_def attr_value_def attr_id_def
      attr_attr_def first_arg_value_def first_arg_def)

section \<open>Properties of the orphan cleanup\<close>














lemma dropped_append [simp]: "dropped (a @ b) = dropped a @ dropped b"
  by (simp add: dropped_def)











end
